theory Spec2Isabelle
  imports Complex_Main "HOL-Library.Word" "HOL-Library.Monad_Syntax"
begin

section \<open>Core value types (core.h)\<close>

text \<open>
  A value of the C++ type \<open>float\<close> is a real number. Where a result depends on the
  rounding of single precision, in \<open>calculate_dimensions\<close> and in the coordinate transforms
  \<open>page_to_pixel\<close> and \<open>pixel_to_page\<close>, the arithmetic is IEEE 754 binary32 with every
  operation rounded. Elsewhere page sizes, scale factors and DPI values are computed
  without rounding, and the concrete inputs used there are chosen so that rounding to
  single precision does not change the outcome. The C++ type \<open>int\<close> is modelled by
  \<open>int\<close>; signed overflow is undefined behaviour in the source and is not modelled,
  except in the cast of \<open>calculate_dimensions\<close>.
\<close>

datatype ErrorCode =
    Success | FileNotFound | InvalidPDF | PasswordRequired | PermissionDenied
  | OutOfMemory | NotImplemented | InvalidArgument | IOError | EncryptionError
  | SignatureError | OCRError | RenderError | UnknownError

datatype PageRotation = RotNone | Clockwise90 | Clockwise180 | Clockwise270

record Rect =
  x0 :: real
  y0 :: real
  x1 :: real
  y1 :: real

record Point =
  px :: real
  py :: real

record Color =
  col_r :: real
  col_g :: real
  col_b :: real
  col_a :: real

definition Color_white :: Color where
  "Color_white = \<lparr>col_r = 1, col_g = 1, col_b = 1, col_a = 1\<rparr>"

definition Rect_default :: Rect where
  "Rect_default = \<lparr>x0 = 0, y0 = 0, x1 = 0, y1 = 0\<rparr>"

definition Rect_width :: "Rect \<Rightarrow> real" where
  "Rect_width r = x1 r - x0 r"

definition Rect_height :: "Rect \<Rightarrow> real" where
  "Rect_height r = y1 r - y0 r"

definition Rect_is_empty :: "Rect \<Rightarrow> bool" where
  "Rect_is_empty r \<longleftrightarrow> Rect_width r \<le> 0 \<or> Rect_height r \<le> 0"

text \<open>
  \<open>Result<T>\<close>: a value slot, an error code and a message. The error constructors leave
  the value slot default-constructed; for \<open>std::unique_ptr\<close> that is the null pointer,
  modelled by \<open>None\<close>.
\<close>

record 'a Result =
  res_value :: 'a
  res_error :: ErrorCode
  res_message :: string

definition Result_value :: "'a \<Rightarrow> 'a Result" where
  "Result_value v = \<lparr>res_value = v, res_error = Success, res_message = ''''\<rparr>"

definition Result_error :: "ErrorCode \<Rightarrow> string \<Rightarrow> 'a option Result" where
  "Result_error e msg = \<lparr>res_value = None, res_error = e, res_message = msg\<rparr>"

definition is_ok :: "'a Result \<Rightarrow> bool" where
  "is_ok r \<longleftrightarrow> res_error r = Success"

section \<open>Collaborators: Page and Document (document.h)\<close>

text \<open>
  A \<open>Page\<close> exposes its width and height in points and an opaque engine handle
  (\<open>void*\<close>, address 0 is the null pointer). A \<open>Page*\<close> argument is a \<open>Page option\<close>,
  \<open>None\<close> being the null pointer.
\<close>

type_synonym handle = nat

record Page =
  Page_width :: real
  Page_height :: real
  Page_handle :: handle

text \<open>
  \<open>Document::get_page\<close> returns the null pointer exactly for an index outside
  \<open>[0, page_count())\<close>; inside the range it returns the page object stored for that index.
\<close>

record Document =
  page_count :: int
  pages :: "int \<Rightarrow> Page"

definition get_page :: "Document \<Rightarrow> int \<Rightarrow> Page option" where
  "get_page doc index =
     (if index < 0 \<or> index \<ge> page_count doc then None else Some (pages doc index))"

section \<open>Render options and image buffers (renderer.h)\<close>

datatype AntiAliasing = AA_None | AA_Text | AA_Graphics | AA_All

datatype ColorMode = RGB | CMYK | Grayscale | Monochrome

datatype ImageFormat = RGB24 | RGBA32 | BGR24 | BGRA32 | Gray8 | Mono1

record RenderOptions =
  dpi :: real
  anti_aliasing :: AntiAliasing
  color_mode :: ColorMode
  image_format :: ImageFormat
  render_annotations :: bool
  render_forms :: bool
  render_xfa_forms :: bool
  render_transparent :: bool
  background_color :: Color
  clip_rect :: Rect
  use_clip_rect :: bool
  rotation :: PageRotation
  override_rotation :: bool

definition RenderOptions_default :: RenderOptions where
  "RenderOptions_default =
     \<lparr>dpi = 150, anti_aliasing = AA_All, color_mode = RGB, image_format = RGB24,
      render_annotations = True, render_forms = True, render_xfa_forms = False,
      render_transparent = False, background_color = Color_white,
      clip_rect = Rect_default, use_clip_rect = False,
      rotation = RotNone, override_rotation = False\<rparr>"

type_synonym uint8 = "8 word"

record ImageBuffer =
  data :: "uint8 list"
  width :: int
  height :: int
  stride :: int
  format :: ImageFormat

definition ImageBuffer_size :: "ImageBuffer \<Rightarrow> nat" where
  "ImageBuffer_size img = length (data img)"

type_synonym RenderResult = "ImageBuffer option Result"

section \<open>Single-precision arithmetic\<close>

text \<open>
  A finite binary32 number is \<open>m * 2 ^ e\<close> with an integer \<open>m\<close> of magnitude below
  \<open>2 ^ 24\<close> and \<open>- 149 \<le> e \<le> 104\<close>. \<open>f32_exponent 253 (- 149) x\<close> is the exponent of the
  spacing of these numbers around \<open>x\<close>: the least \<open>e\<close> from \<open>- 149\<close> on with
  \<open>\<bar>x\<bar> < 2 ^ (e + 24)\<close>, and 104 when there is none.
\<close>

fun f32_exponent :: "nat \<Rightarrow> int \<Rightarrow> real \<Rightarrow> int" where
  "f32_exponent 0 e x = e"
| "f32_exponent (Suc n) e x =
     (if \<bar>x\<bar> < 2 powi (e + 24) then e else f32_exponent n (e + 1) x)"

text \<open>Rounding to the nearest integer, a tie going to the even one.\<close>

definition round_half_even :: "real \<Rightarrow> int" where
  "round_half_even x =
     (let f = \<lfloor>x\<rfloor>; r = x - real_of_int f
      in if r < 1 / 2 then f
         else if 1 / 2 < r then f + 1
         else if even f then f else f + 1)"

text \<open>
  Rounding a real result to binary32 (round to nearest, ties to even). \<open>None\<close> stands for
  a result that is not a finite number: an overflow to infinity, or a division by zero.
\<close>

definition f32_round :: "real \<Rightarrow> real option" where
  "f32_round x =
     (let q = 2 powi (f32_exponent 253 (- 149) x);
          r = real_of_int (round_half_even (x / q)) * q
      in if \<bar>r\<bar> < 2 ^ 128 then Some r else None)"

definition f32_mul :: "real \<Rightarrow> real \<Rightarrow> real option" where
  "f32_mul a b = f32_round (a * b)"

definition f32_sub :: "real \<Rightarrow> real \<Rightarrow> real option" where
  "f32_sub a b = f32_round (a - b)"

definition f32_div :: "real \<Rightarrow> real \<Rightarrow> real option" where
  "f32_div a b = (if b = 0 then None else f32_round (a / b))"

section \<open>Geometry utilities (renderer.cpp)\<close>

text \<open>\<open>static_cast<int>\<close> of a float discards the fractional part (rounds towards zero).\<close>

definition to_int :: "real \<Rightarrow> int" where
  "to_int x = (if 0 \<le> x then \<lfloor>x\<rfloor> else \<lceil>x\<rceil>)"



definition calculate_scale_to_fit :: "Page option \<Rightarrow> int \<Rightarrow> int \<Rightarrow> real" where
  "calculate_scale_to_fit page max_width max_height =
     (case page of
        None \<Rightarrow> 1
      | Some p \<Rightarrow>
          (let scale_x = real_of_int max_width / Page_width p;
               scale_y = real_of_int max_height / Page_height p
           in min scale_x scale_y))"

text \<open>
  The two coordinate transforms, in single precision. The result is \<open>None\<close> when some
  coordinate is not a finite number.
\<close>

definition page_to_pixel :: "Point \<Rightarrow> real \<Rightarrow> real \<Rightarrow> Point option" where
  "page_to_pixel page_point d page_height =
     do {
       scale \<leftarrow> f32_div d 72;
       x \<leftarrow> f32_mul (px page_point) scale;
       t \<leftarrow> f32_sub page_height (py page_point);
       y \<leftarrow> f32_mul t scale;
       Some \<lparr>px = x, py = y\<rparr>
     }"

definition pixel_to_page :: "Point \<Rightarrow> real \<Rightarrow> real \<Rightarrow> Point option" where
  "pixel_to_page pixel_point d page_height =
     do {
       scale \<leftarrow> f32_div 72 d;
       x \<leftarrow> f32_mul (px pixel_point) scale;
       t \<leftarrow> f32_mul (py pixel_point) scale;
       y \<leftarrow> f32_sub page_height t;
       Some \<lparr>px = x, py = y\<rparr>
     }"

section \<open>Tiling (renderer.cpp)\<close>

record TileInfo =
  tile_x :: int
  tile_y :: int
  tile_width :: int
  tile_height :: int
  page_rect :: Rect

text \<open>The body of the inner loop of \<open>calculate_tiles\<close>, for one \<open>(row, col)\<close>.\<close>

definition make_tile :: "Page \<Rightarrow> int \<Rightarrow> int \<Rightarrow> int \<Rightarrow> int \<Rightarrow> TileInfo" where
  "make_tile p tw th row col =
     \<lparr>tile_x = col, tile_y = row, tile_width = tw, tile_height = th,
      page_rect =
        \<lparr>x0 = real_of_int (col * tw),
         y0 = real_of_int (row * th),
         x1 = real_of_int (min ((col + 1) * tw) (to_int (Page_width p))),
         y1 = real_of_int (min ((row + 1) * th) (to_int (Page_height p)))\<rparr>\<rparr>"

definition calculate_tiles ::
  "Page option \<Rightarrow> int \<Rightarrow> int \<Rightarrow> RenderOptions \<Rightarrow> TileInfo list" where
  "calculate_tiles page tw th options =
     (case page of
        None \<Rightarrow> []
      | Some p \<Rightarrow>
          (let cols = \<lceil>Page_width p / real_of_int tw\<rceil>;
               rows = \<lceil>Page_height p / real_of_int th\<rceil>
           in concat (map (\<lambda>row. map (\<lambda>col. make_tile p tw th row col) [0..cols - 1])
                          [0..rows - 1])))"

text \<open>A point of the page lies in a tile's half-open rectangle.\<close>

definition rect_contains :: "Rect \<Rightarrow> real \<times> real \<Rightarrow> bool" where
  "rect_contains r pt \<longleftrightarrow>
     x0 r \<le> fst pt \<and> fst pt < x1 r \<and> y0 r \<le> snd pt \<and> snd pt < y1 r"

section \<open>The rasterization engine\<close>

text \<open>
  \<open>render_page\<close> is compiled either without an engine or against MuPDF (\<open>USE_MUPDF\<close>).
  The engine is not part of the repository, so it is a parameter: whether a per-thread
  context can be obtained, and what the sequence of engine calls inside \<open>fz_try\<close> produces
  for a page handle, a scale factor \<open>dpi / 72\<close>, a colour space, the alpha flag and the
  background clear value (present only when the render is not transparent). The engine
  either throws with a message or yields a pixmap.
\<close>

datatype Colorspace = DeviceRGB | DeviceGray | DeviceCMYK

record Pixmap =
  pix_width :: int
  pix_height :: int
  pix_stride :: int
  pix_components :: int
  pix_samples :: "uint8 list"

record Engine =
  context_available :: bool
  fz_render :: "handle \<Rightarrow> real \<Rightarrow> Colorspace \<Rightarrow> bool \<Rightarrow> int option \<Rightarrow> string + Pixmap"

datatype Backend = NoBackend | MuPDF Engine

definition colorspace_of :: "ColorMode \<Rightarrow> Colorspace" where
  "colorspace_of m =
     (case m of RGB \<Rightarrow> DeviceRGB | Grayscale \<Rightarrow> DeviceGray | CMYK \<Rightarrow> DeviceCMYK
      | Monochrome \<Rightarrow> DeviceRGB)"

definition buffer_of_pixmap :: "bool \<Rightarrow> Pixmap \<Rightarrow> ImageBuffer" where
  "buffer_of_pixmap alpha pix =
     (let n = pix_components pix;
          data_size = nat (pix_stride pix * pix_height pix)
      in \<lparr>data = take data_size (pix_samples pix),
          width = pix_width pix,
          height = pix_height pix,
          stride = pix_stride pix,
          format = (if alpha then (if n = 4 then RGBA32 else BGRA32)
                    else (if n = 3 then RGB24 else BGR24))\<rparr>)"

section \<open>Renderer: single pages (renderer.cpp)\<close>

definition render_page :: "Backend \<Rightarrow> Page option \<Rightarrow> RenderOptions \<Rightarrow> RenderResult" where
  "render_page be page options =
     (case page of
        None \<Rightarrow> Result_error InvalidArgument ''Invalid page''
      | Some p \<Rightarrow>
          (case be of
             NoBackend \<Rightarrow>
               Result_error NotImplemented ''Rendering not implemented for this backend''
           | MuPDF eng \<Rightarrow>
               if \<not> context_available eng
               then Result_error RenderError ''Failed to get rendering context''
               else if Page_handle p = 0
               then Result_error RenderError ''Invalid page handle''
               else
                 (let alpha = render_transparent options;
                      clear = (if \<not> render_transparent options
                               then Some (to_int (col_r (background_color options) * 255))
                               else None)
                  in case fz_render eng (Page_handle p) (dpi options / 72)
                            (colorspace_of (color_mode options)) alpha clear of
                       Inl msg \<Rightarrow> Result_error RenderError msg
                     | Inr pix \<Rightarrow> Result_value (Some (buffer_of_pixmap alpha pix)))))"

text \<open>
  \<open>memcpy(dst, src, n)\<close> overwrites the first \<open>n\<close> bytes of the destination. The caller
  memory is the list \<open>buffer\<close>; a copy that would run past its end, or a dereference of a
  null image pointer, is undefined behaviour and is the value \<open>None\<close>.
\<close>

definition memcpy :: "uint8 list \<Rightarrow> uint8 list \<Rightarrow> nat \<Rightarrow> uint8 list option" where
  "memcpy dst src n =
     (if n \<le> length dst \<and> n \<le> length src then Some (take n src @ drop n dst) else None)"

definition render_page_to_buffer ::
  "Backend \<Rightarrow> Page option \<Rightarrow> uint8 list \<Rightarrow> nat \<Rightarrow> RenderOptions \<Rightarrow> (bool \<times> uint8 list) option"
where
  "render_page_to_buffer be page buffer buffer_size options =
     (let res = render_page be page options
      in if \<not> is_ok res then Some (False, buffer)
         else
           (case res_value res of
              None \<Rightarrow> None
            | Some img \<Rightarrow>
                (let img_size = ImageBuffer_size img
                 in if img_size > buffer_size then Some (False, buffer)
                    else (case memcpy buffer (data img) img_size of
                            None \<Rightarrow> None
                          | Some buffer' \<Rightarrow> Some (True, buffer')))))"

definition render_page_scaled ::
  "Backend \<Rightarrow> Page option \<Rightarrow> real \<Rightarrow> real \<Rightarrow> RenderOptions \<Rightarrow> RenderResult" where
  "render_page_scaled be page scale_x scale_y options =
     (let scaled_options = options\<lparr>dpi := dpi options * ((scale_x + scale_y) / 2)\<rparr>
      in render_page be page scaled_options)"

definition render_page_to_size ::
  "Backend \<Rightarrow> Page option \<Rightarrow> int \<Rightarrow> int \<Rightarrow> RenderOptions \<Rightarrow> RenderResult" where
  "render_page_to_size be page w h options =
     (case page of
        None \<Rightarrow> Result_error InvalidArgument ''Invalid page''
      | Some p \<Rightarrow>
          (let scale_x = real_of_int w / Page_width p;
               scale_y = real_of_int h / Page_height p;
               scale = min scale_x scale_y;
               sized_options = options\<lparr>dpi := 72 * scale\<rparr>
           in render_page be page sized_options))"

definition render_thumbnail ::
  "Backend \<Rightarrow> Page option \<Rightarrow> int \<Rightarrow> int \<Rightarrow> bool \<Rightarrow> RenderResult" where
  "render_thumbnail be page max_width max_height maintain_aspect =
     (case page of
        None \<Rightarrow> Result_error InvalidArgument ''Invalid page''
      | Some p \<Rightarrow>
          (let scale_x = real_of_int max_width / Page_width p;
               scale_y = real_of_int max_height / Page_height p;
               scale = (if maintain_aspect then min scale_x scale_y else scale_x);
               options = RenderOptions_default\<lparr>dpi := 72 * scale, anti_aliasing := AA_All\<rparr>
           in render_page be page options))"

definition render_tile :: "Backend \<Rightarrow> Page option \<Rightarrow> TileInfo \<Rightarrow> RenderOptions \<Rightarrow> RenderResult" where
  "render_tile be page tile options =
     (let tile_options = options\<lparr>use_clip_rect := True, clip_rect := page_rect tile\<rparr>
      in render_page be page tile_options)"

section \<open>Renderer: batches (renderer.cpp)\<close>

text \<open>\<open>std::to_string\<close> on an \<open>int\<close>: the decimal digits, with a leading minus sign.\<close>

fun digits_of :: "nat \<Rightarrow> string" where
  "digits_of n =
     (if n < 10 then [char_of (48 + n)]
      else digits_of (n div 10) @ [char_of (48 + n mod 10)])"

definition to_string :: "int \<Rightarrow> string" where
  "to_string i = (if i < 0 then CHR ''-'' # digits_of (nat (- i)) else digits_of (nat i))"

text \<open>A \<open>ProgressCallback\<close> may be empty (\<open>nullptr\<close>), which is \<open>None\<close>.\<close>

type_synonym ProgressCallback = "(int \<Rightarrow> int \<Rightarrow> string \<Rightarrow> bool) option"

text \<open>
  The loop of \<open>render_pages\<close>: \<open>i\<close> is the loop counter, the list holds
  \<open>page_indices[i..]\<close>, \<open>n\<close> is \<open>page_indices.size()\<close> and \<open>results\<close> the vector
  built so far.
\<close>

fun render_pages_loop ::
  "Backend \<Rightarrow> Document \<Rightarrow> RenderOptions \<Rightarrow> ProgressCallback \<Rightarrow> int \<Rightarrow> int \<Rightarrow> int list
     \<Rightarrow> RenderResult list \<Rightarrow> RenderResult list"
where
  "render_pages_loop be doc options callback n i [] results = results"
| "render_pages_loop be doc options callback n i (idx # rest) results =
     (let should_continue =
            (case callback of
               None \<Rightarrow> True
             | Some f \<Rightarrow> f i n (''Rendering page '' @ to_string idx))
      in if \<not> should_continue then results
         else
           (let slot =
                  (case get_page doc idx of
                     Some p \<Rightarrow> render_page be (Some p) options
                   | None \<Rightarrow> Result_error InvalidArgument ''Invalid page index'')
            in render_pages_loop be doc options callback n (i + 1) rest (results @ [slot])))"

definition render_pages ::
  "Backend \<Rightarrow> Document \<Rightarrow> int list \<Rightarrow> RenderOptions \<Rightarrow> ProgressCallback \<Rightarrow> RenderResult list"
where
  "render_pages be doc page_indices options callback =
     render_pages_loop be doc options callback (int (length page_indices)) 0 page_indices []"

definition render_all_pages ::
  "Backend \<Rightarrow> Document option \<Rightarrow> RenderOptions \<Rightarrow> ProgressCallback \<Rightarrow> RenderResult list"
where
  "render_all_pages be doc options callback =
     (case doc of
        None \<Rightarrow> []
      | Some d \<Rightarrow> render_pages be d [0..page_count d - 1] options callback)"

text \<open>The loop of \<open>render_all_thumbnails\<close> over the remaining values of \<open>i\<close>.\<close>

fun render_all_thumbnails_loop ::
  "Backend \<Rightarrow> Document \<Rightarrow> int \<Rightarrow> int \<Rightarrow> ProgressCallback \<Rightarrow> int list
     \<Rightarrow> RenderResult list \<Rightarrow> RenderResult list"
where
  "render_all_thumbnails_loop be doc max_width max_height callback [] results = results"
| "render_all_thumbnails_loop be doc max_width max_height callback (i # rest) results =
     (let should_continue =
            (case callback of
               None \<Rightarrow> True
             | Some f \<Rightarrow> f i (page_count doc) (''Generating thumbnail '' @ to_string (i + 1)))
      in if \<not> should_continue then results
         else
           (case get_page doc i of
              Some p \<Rightarrow>
                render_all_thumbnails_loop be doc max_width max_height callback rest
                  (results @ [render_thumbnail be (Some p) max_width max_height True])
            | None \<Rightarrow>
                render_all_thumbnails_loop be doc max_width max_height callback rest results))"

definition render_all_thumbnails ::
  "Backend \<Rightarrow> Document option \<Rightarrow> int \<Rightarrow> int \<Rightarrow> ProgressCallback \<Rightarrow> RenderResult list"
where
  "render_all_thumbnails be doc max_width max_height callback =
     (case doc of
        None \<Rightarrow> []
      | Some d \<Rightarrow>
          render_all_thumbnails_loop be d max_width max_height callback
            [0..page_count d - 1] [])"

section \<open>Renderer: cache state (renderer.cpp)\<close>

text \<open>
  \<open>Renderer::Impl\<close>: the cache flag, the configured size in megabytes, the thread count
  and the map from page handle to buffer. The mutex has no sequential content.
\<close>

record Renderer_Impl =
  cache_enabled :: bool
  cache_size_mb :: nat
  thread_count :: int
  cache :: "handle \<rightharpoonup> ImageBuffer"

definition Renderer_new :: Renderer_Impl where
  "Renderer_new =
     \<lparr>cache_enabled = True, cache_size_mb = 100, thread_count = 0, cache = Map.empty\<rparr>"

definition set_cache_enabled :: "Renderer_Impl \<Rightarrow> bool \<Rightarrow> Renderer_Impl" where
  "set_cache_enabled r enabled = r\<lparr>cache_enabled := enabled\<rparr>"

definition is_cache_enabled :: "Renderer_Impl \<Rightarrow> bool" where
  "is_cache_enabled r = cache_enabled r"

definition set_cache_size :: "Renderer_Impl \<Rightarrow> nat \<Rightarrow> Renderer_Impl" where
  "set_cache_size r size_mb = r\<lparr>cache_size_mb := size_mb\<rparr>"

definition get_cache_size :: "Renderer_Impl \<Rightarrow> nat" where
  "get_cache_size r = cache_size_mb r"

definition clear_cache :: "Renderer_Impl \<Rightarrow> Renderer_Impl" where
  "clear_cache r = r\<lparr>cache := Map.empty\<rparr>"

definition invalidate_page :: "Renderer_Impl \<Rightarrow> Page \<Rightarrow> Renderer_Impl" where
  "invalidate_page r page = r\<lparr>cache := (cache r)(Page_handle page := None)\<rparr>"

text \<open>
  The calls on a \<open>Renderer\<close> object that read or write its state. \<open>render_page\<close> uses the
  object only to obtain the engine context: it has no statement that reads or writes
  \<open>cache_\<close>, \<open>cache_enabled_\<close> or \<open>cache_size_mb_\<close>, so the state it leaves is the state
  it found, and its result is that of the engine.
\<close>

datatype Renderer_call =
    Call_render_page "Page option" RenderOptions
  | Call_set_cache_enabled bool
  | Call_set_cache_size nat
  | Call_clear_cache
  | Call_invalidate_page Page

fun exec_call ::
  "Backend \<Rightarrow> Renderer_Impl \<Rightarrow> Renderer_call \<Rightarrow> Renderer_Impl \<times> RenderResult option" where
  "exec_call be r (Call_render_page page options) = (r, Some (render_page be page options))"
| "exec_call be r (Call_set_cache_enabled enabled) = (set_cache_enabled r enabled, None)"
| "exec_call be r (Call_set_cache_size size_mb) = (set_cache_size r size_mb, None)"
| "exec_call be r Call_clear_cache = (clear_cache r, None)"
| "exec_call be r (Call_invalidate_page page) = (invalidate_page r page, None)"

fun exec_calls :: "Backend \<Rightarrow> Renderer_Impl \<Rightarrow> Renderer_call list \<Rightarrow> Renderer_Impl" where
  "exec_calls be r [] = r"
| "exec_calls be r (c # cs) = exec_calls be (fst (exec_call be r c)) cs"

section \<open>RenderJob (renderer.cpp)\<close>

datatype Status = Pending | Running | Completed | Failed | Cancelled

text \<open>\<open>RenderJob::Impl\<close> without its mutex and condition variable.\<close>

record RenderJob =
  status :: Status
  progress :: real
  result :: "ImageBuffer option"

definition RenderJob_new :: RenderJob where
  "RenderJob_new = \<lparr>status = Pending, progress = 0, result = None\<rparr>"

definition get_status :: "RenderJob \<Rightarrow> Status" where
  "get_status job = status job"

text \<open>The predicate both branches of \<open>wait\<close> block on.\<close>

definition is_terminal :: "Status \<Rightarrow> bool" where
  "is_terminal st \<longleftrightarrow> st = Completed \<or> st = Failed \<or> st = Cancelled"

text \<open>
  \<open>wait\<close> seen from the calling thread, no other thread touching the job meanwhile: with
  a negative timeout it returns \<open>true\<close> once the status is terminal and otherwise never
  returns (\<open>None\<close>); with a timeout it returns whether the status is terminal.
\<close>

definition wait :: "RenderJob \<Rightarrow> int \<Rightarrow> bool option" where
  "wait job timeout_ms =
     (if timeout_ms < 0
      then (if is_terminal (status job) then Some True else None)
      else Some (is_terminal (status job)))"

definition cancel :: "RenderJob \<Rightarrow> RenderJob" where
  "cancel job =
     (if status job = Pending \<or> status job = Running
      then job\<lparr>status := Cancelled\<rparr>
      else job)"

text \<open>
  \<open>get_result\<close> returns the \<open>Result\<close> and leaves the job behind. Its \<open>Completed\<close> branch
  builds the \<open>Result\<close> from \<open>std::move(impl_->result)\<close>. With \<open>Result\<close> as core.h declares
  it that expression is ill-formed: the only value constructor takes \<open>const T&\<close> and copies
  its argument, and a \<open>unique_ptr\<close> cannot be copied. The source therefore does not fix
  which pointer the \<open>Result\<close> receives and which pointer stays in the job; both are given
  by the parameter \<open>make_result\<close>, applied to the stored pointer. The other branch does not
  depend on it.
\<close>

type_synonym Result_construction =
  "ImageBuffer option \<Rightarrow> ImageBuffer option \<times> ImageBuffer option"

definition get_result ::
  "Result_construction \<Rightarrow> RenderJob \<Rightarrow> (RenderResult \<times> RenderJob) option" where
  "get_result make_result job =
     (case wait job (- 1) of
        None \<Rightarrow> None
      | Some _ \<Rightarrow>
          if status job = Completed
          then (let (received, left) = make_result (result job)
                in Some (Result_value received, job\<lparr>result := left\<rparr>))
          else Some (Result_error RenderError ''Render job did not complete successfully'',
                     job))"

section \<open>AsyncRenderer (renderer.cpp)\<close>

text \<open>
  Jobs are shared by handle (\<open>std::shared_ptr\<close>): they live in a store, and a handle
  is an index into it. \<open>AsyncRenderer::Impl\<close> has no members, so the renderer itself has
  no state.
\<close>

type_synonym job_handle = nat
type_synonym job_store = "RenderJob list"

definition queue_render ::
  "job_store \<Rightarrow> Page option \<Rightarrow> RenderOptions \<Rightarrow> job_handle \<times> job_store" where
  "queue_render store page options = (length store, store @ [RenderJob_new])"

text \<open>The loop of \<open>queue_batch\<close>; \<open>jobs\<close> is the vector built so far.\<close>

fun queue_batch_loop ::
  "job_store \<Rightarrow> Document \<Rightarrow> RenderOptions \<Rightarrow> int list \<Rightarrow> job_handle list
     \<Rightarrow> job_handle list \<times> job_store"
where
  "queue_batch_loop store doc options [] jobs = (jobs, store)"
| "queue_batch_loop store doc options (idx # rest) jobs =
     (case get_page doc idx of
        Some p \<Rightarrow>
          (let (job, store') = queue_render store (Some p) options
           in queue_batch_loop store' doc options rest (jobs @ [job]))
      | None \<Rightarrow> queue_batch_loop store doc options rest jobs)"

definition queue_batch ::
  "job_store \<Rightarrow> Document \<Rightarrow> int list \<Rightarrow> RenderOptions \<Rightarrow> job_handle list \<times> job_store" where
  "queue_batch store doc page_indices options =
     queue_batch_loop store doc options page_indices []"

definition pending_count :: "job_store \<Rightarrow> int" where
  "pending_count store = 0"

definition cancel_all :: "job_store \<Rightarrow> job_store" where
  "cancel_all store = store"

definition wait_all :: "job_store \<Rightarrow> job_store" where
  "wait_all store = store"

section \<open>Descriptions used to state the properties\<close>

text \<open>
  The value a batch stores for one requested index: the page's own render result, or the
  \<open>InvalidArgument\<close> error when the index has no page.
\<close>

definition page_slot :: "Backend \<Rightarrow> Document \<Rightarrow> RenderOptions \<Rightarrow> int \<Rightarrow> RenderResult" where
  "page_slot be doc options idx =
     (case get_page doc idx of
        Some p \<Rightarrow> render_page be (Some p) options
      | None \<Rightarrow> Result_error InvalidArgument ''Invalid page index'')"

text \<open>
  How many items a batch processes: all of them without a callback, and otherwise as many
  as the callback accepts in a row, called with the counter \<open>i, i + 1, \<dots>\<close>, the total
  \<open>n\<close> and the messages in order. This depends on the callback alone, not on any page.
\<close>

fun callback_prefix ::
  "(int \<Rightarrow> int \<Rightarrow> string \<Rightarrow> bool) \<Rightarrow> int \<Rightarrow> int \<Rightarrow> string list \<Rightarrow> nat" where
  "callback_prefix f n i [] = 0"
| "callback_prefix f n i (m # ms) =
     (if f i n m then Suc (callback_prefix f n (i + 1) ms) else 0)"

definition processed :: "ProgressCallback \<Rightarrow> int \<Rightarrow> string list \<Rightarrow> nat" where
  "processed callback n msgs =
     (case callback of None \<Rightarrow> length msgs | Some f \<Rightarrow> callback_prefix f n 0 msgs)"

text \<open>The number of requested indices that have a page.\<close>

definition present_count :: "Document \<Rightarrow> int list \<Rightarrow> nat" where
  "present_count doc idxs = length (filter (\<lambda>i. get_page doc i \<noteq> None) idxs)"

text \<open>
  The wrappers as the specification words them: \<open>render_page\<close> at the effective DPI
  \<open>72 * scale\<close>, respectively \<open>72 * min(width/page_width, height/page_height)\<close>, all other
  option fields unchanged.
\<close>

definition spec_render_page_scaled ::
  "Backend \<Rightarrow> Page option \<Rightarrow> real \<Rightarrow> RenderOptions \<Rightarrow> RenderResult" where
  "spec_render_page_scaled be page scale options =
     render_page be page (options\<lparr>dpi := 72 * scale\<rparr>)"

definition spec_render_page_to_size ::
  "Backend \<Rightarrow> Page option \<Rightarrow> int \<Rightarrow> int \<Rightarrow> RenderOptions \<Rightarrow> RenderResult" where
  "spec_render_page_to_size be page w h options =
     (case page of
        None \<Rightarrow> render_page be None options
      | Some p \<Rightarrow>
          render_page be page
            (options\<lparr>dpi := 72 * min (real_of_int w / Page_width p)
                                     (real_of_int h / Page_height p)\<rparr>))"

section \<open>A stand-in engine for concrete instances\<close>

text \<open>
  An engine that always succeeds with a square of \<open>\<lfloor>scale\<rfloor> \<times> \<lfloor>scale\<rfloor>\<close> white RGB
  pixels, and a US Letter page with a live handle. They serve only to instantiate the
  theorems below at concrete inputs.
\<close>

definition test_engine :: Engine where
  "test_engine =
     \<lparr>context_available = True,
      fz_render = (\<lambda>h scale cs alpha clear.
         (let w = to_int scale
          in Inr \<lparr>pix_width = w, pix_height = w, pix_stride = 3 * w, pix_components = 3,
                  pix_samples = replicate (nat (3 * w * w)) 255\<rparr>))\<rparr>"

definition test_page :: Page where
  "test_page = \<lparr>Page_width = 612, Page_height = 792, Page_handle = 1\<rparr>"

text \<open>
  A document of two such pages, the first with a null engine handle, and a document of
  fifty pages.
\<close>

definition doc2 :: Document where
  "doc2 = \<lparr>page_count = 2, pages = (\<lambda>i. test_page\<lparr>Page_handle := nat i\<rparr>)\<rparr>"

definition doc50 :: Document where
  "doc50 = \<lparr>page_count = 50, pages = (\<lambda>i. test_page\<lparr>Page_handle := nat i + 1\<rparr>)\<rparr>"

section \<open>Properties of single-precision rounding\<close>

lemma round_half_even_error: "\<bar>real_of_int (round_half_even x) - x\<bar> \<le> 1 / 2"
  unfolding round_half_even_def Let_def by (auto simp: abs_if) linarith+

lemma f32_exponent_range: "e \<le> f32_exponent n e x \<and> f32_exponent n e x \<le> e + int n"
proof (induction n arbitrary: e)
  case 0
  then show ?case by simp
next
  case (Suc n)
  from Suc.IH [of "e + 1"] show ?case by auto
qed

lemma f32_exponent_upper:
  "f32_exponent n e x < e + int n \<Longrightarrow> \<bar>x\<bar> < 2 powi (f32_exponent n e x + 24)"
proof (induction n arbitrary: e)
  case 0
  then show ?case by simp
next
  case (Suc n)
  show ?case
  proof (cases "\<bar>x\<bar> < 2 powi (e + 24)")
    case True
    then show ?thesis by simp
  next
    case False
    with Suc.prems have "f32_exponent n (e + 1) x < (e + 1) + int n" by simp
    from Suc.IH [OF this] False show ?thesis by simp
  qed
qed

lemma f32_exponent_lower:
  "e < f32_exponent n e x \<Longrightarrow> 2 powi (f32_exponent n e x + 23) \<le> \<bar>x\<bar>"
proof (induction n arbitrary: e)
  case 0
  then show ?case by simp
next
  case (Suc n)
  show ?case
  proof (cases "\<bar>x\<bar> < 2 powi (e + 24)")
    case True
    with Suc.prems show ?thesis by simp
  next
    case False
    show ?thesis
    proof (cases "e + 1 < f32_exponent n (e + 1) x")
      case True
      from Suc.IH [OF this] False show ?thesis by simp
    next
      case f: False
      with f32_exponent_range [of "e + 1" n x] have "f32_exponent n (e + 1) x = e + 1"
        by simp
      with False show ?thesis by (simp add: add.commute)
    qed
  qed
qed

lemma f32_exponent_eqI:
  assumes "- 149 \<le> e" "e \<le> 104" "\<bar>x\<bar> < 2 powi (e + 24)"
    "e = - 149 \<or> 2 powi (e + 23) \<le> \<bar>x\<bar>"
  shows "f32_exponent 253 (- 149) x = e"
proof -
  let ?e' = "f32_exponent 253 (- 149) x"
  have r: "- 149 \<le> ?e'" "?e' \<le> 104"
    using f32_exponent_range [of "- 149" 253 x] by simp_all
  have "\<not> ?e' < e"
  proof
    assume l: "?e' < e"
    then have "?e' < - 149 + int 253" using assms(2) by simp
    from f32_exponent_upper [OF this] have "\<bar>x\<bar> < 2 powi (?e' + 24)" .
    also have "\<dots> \<le> 2 powi (e + 23)" using l by (intro power_int_increasing) simp_all
    finally have "\<bar>x\<bar> < 2 powi (e + 23)" .
    moreover have "e \<noteq> - 149" using l r by simp
    ultimately show False using assms(4) by simp
  qed
  moreover have "\<not> e < ?e'"
  proof
    assume l: "e < ?e'"
    then have "- 149 < ?e'" using assms(1) by simp
    from f32_exponent_lower [OF this] have "2 powi (?e' + 23) \<le> \<bar>x\<bar>" .
    moreover have "2 powi (e + 24) \<le> (2::real) powi (?e' + 23)"
      using l by (intro power_int_increasing) simp_all
    ultimately show False using assms(3) by simp
  qed
  ultimately show ?thesis by simp
qed

text \<open>
  The rounded value is within half a spacing of the exact one, which is a relative error of
  at most \<open>2 ^ - 24\<close> or, near zero, an absolute error of \<open>2 ^ - 150\<close>; nothing of magnitude
  up to \<open>2 ^ 127\<close> overflows.
\<close>

lemma f32_round_half_quantum:
  fixes x :: real
  defines "q \<equiv> 2 powi (f32_exponent 253 (- 149) x)"
  shows "\<bar>real_of_int (round_half_even (x / q)) * q - x\<bar> \<le> q / 2"
proof -
  have q: "0 < q" by (simp add: q_def)
  have "real_of_int (round_half_even (x / q)) * q - x
          = (real_of_int (round_half_even (x / q)) - x / q) * q"
    using q by (simp add: field_simps)
  then have "\<bar>real_of_int (round_half_even (x / q)) * q - x\<bar>
          = \<bar>real_of_int (round_half_even (x / q)) - x / q\<bar> * q"
    using q by (simp add: abs_mult)
  also have "\<dots> \<le> (1 / 2) * q"
    using q round_half_even_error [of "x / q"] by (intro mult_right_mono) simp_all
  finally show ?thesis by simp
qed

lemma f32_quantum_bounds:
  fixes x :: real
  defines "q \<equiv> 2 powi (f32_exponent 253 (- 149) x)"
  shows "q \<le> 2 ^ 104" and "q / 2 \<le> \<bar>x\<bar> / 2 ^ 24 \<or> q / 2 = 1 / 2 ^ 150"
proof -
  let ?e = "f32_exponent 253 (- 149) x"
  have r: "- 149 \<le> ?e" "?e \<le> 104"
    using f32_exponent_range [of "- 149" 253 x] by simp_all
  have "q \<le> 2 powi 104"
    unfolding q_def using r by (intro power_int_increasing) simp_all
  then show "q \<le> 2 ^ 104" by simp
  show "q / 2 \<le> \<bar>x\<bar> / 2 ^ 24 \<or> q / 2 = 1 / 2 ^ 150"
  proof (cases "?e = - 149")
    case True
    then have "q = 2 powi (- 149)" by (simp add: q_def)
    then have "q = 1 / 2 ^ 149" by (simp add: power_int_minus divide_simps)
    then show ?thesis by simp
  next
    case False
    with r have "- 149 < ?e" by simp
    from f32_exponent_lower [OF this] have "2 powi (?e + 23) \<le> \<bar>x\<bar>" .
    moreover have "(2::real) powi (?e + 23) = q * 2 ^ 23"
      by (simp add: q_def power_int_add)
    ultimately have "q * 2 ^ 23 \<le> \<bar>x\<bar>" by simp
    then show ?thesis by simp
  qed
qed

lemma f32_round_error:
  assumes "\<bar>x\<bar> \<le> 2 ^ 127"
  shows "\<exists>r. f32_round x = Some r \<and> \<bar>r - x\<bar> \<le> \<bar>x\<bar> / 2 ^ 24 + 1 / 2 ^ 150"
proof -
  define q :: real where "q = 2 powi (f32_exponent 253 (- 149) x)"
  define r where "r = real_of_int (round_half_even (x / q)) * q"
  have h: "\<bar>r - x\<bar> \<le> q / 2"
    unfolding r_def q_def by (rule f32_round_half_quantum)
  have b: "q \<le> 2 ^ 104" and c: "q / 2 \<le> \<bar>x\<bar> / 2 ^ 24 \<or> q / 2 = 1 / 2 ^ 150"
    unfolding q_def by (rule f32_quantum_bounds)+
  have "\<bar>r\<bar> \<le> \<bar>x\<bar> + q / 2" using h by linarith
  also have "\<dots> \<le> 2 ^ 127 + 2 ^ 104 / 2" using assms b by simp
  also have "\<dots> < 2 ^ 128" by simp
  finally have "f32_round x = Some r"
    by (simp add: f32_round_def Let_def q_def r_def)
  moreover have "\<bar>r - x\<bar> \<le> \<bar>x\<bar> / 2 ^ 24 + 1 / 2 ^ 150"
  proof -
    define eta :: real where "eta = 1 / 2 ^ 150"
    define ux where "ux = \<bar>x\<bar> / 2 ^ 24"
    have "0 \<le> eta" "0 \<le> ux" by (simp_all add: eta_def ux_def)
    moreover have "q / 2 \<le> ux \<or> q / 2 = eta" using c by (simp only: eta_def ux_def)
    ultimately have "\<bar>r - x\<bar> \<le> ux + eta" using h by linarith
    then show ?thesis by (simp only: eta_def ux_def)
  qed
  ultimately show ?thesis by blast
qed

lemma f32_round_error_normal:
  assumes "1 / 2 ^ 126 \<le> \<bar>x\<bar>" and "\<bar>x\<bar> \<le> 2 ^ 127"
  shows "\<exists>r. f32_round x = Some r \<and> \<bar>r - x\<bar> \<le> \<bar>x\<bar> / 2 ^ 24"
proof -
  define q :: real where "q = 2 powi (f32_exponent 253 (- 149) x)"
  define r where "r = real_of_int (round_half_even (x / q)) * q"
  have h: "\<bar>r - x\<bar> \<le> q / 2"
    unfolding r_def q_def by (rule f32_round_half_quantum)
  have b: "q \<le> 2 ^ 104" and c: "q / 2 \<le> \<bar>x\<bar> / 2 ^ 24 \<or> q / 2 = 1 / 2 ^ 150"
    unfolding q_def by (rule f32_quantum_bounds)+
  have "\<bar>r\<bar> \<le> \<bar>x\<bar> + q / 2" using h by linarith
  also have "\<dots> \<le> 2 ^ 127 + 2 ^ 104 / 2" using assms b by simp
  also have "\<dots> < 2 ^ 128" by simp
  finally have "f32_round x = Some r"
    by (simp add: f32_round_def Let_def q_def r_def)
  moreover have "q / 2 \<le> \<bar>x\<bar> / 2 ^ 24"
  proof -
    have "(1 / 2 ^ 150 :: real) = (1 / 2 ^ 126) / 2 ^ 24" by simp
    also have "\<dots> \<le> \<bar>x\<bar> / 2 ^ 24" using assms(1) by (intro divide_right_mono) simp_all
    finally have "(1 / 2 ^ 150 :: real) \<le> \<bar>x\<bar> / 2 ^ 24" .
    with c show ?thesis by (elim disjE) (simp_all only:)
  qed
  ultimately show ?thesis using h by (blast intro: order_trans)
qed

text \<open>The product of the two rounded scale factors is 1 up to two rounding errors.\<close>

lemma scale_product:
  fixes a b s s' :: real
  assumes ab: "a * b = 1" and a: "0 < a" and b: "0 < b"
    and s: "\<bar>s - a\<bar> \<le> a / 2 ^ 24" and s': "\<bar>s' - b\<bar> \<le> b / 2 ^ 24"
  shows "\<bar>s * s' - 1\<bar> \<le> 2 / 2 ^ 24 + 1 / 2 ^ 48"
proof -
  have e1: "\<bar>s'\<bar> \<le> b * (1 + 1 / 2 ^ 24)"
    using s' b by (simp add: abs_if algebra_simps split: if_splits)
  have "\<bar>(s - a) * s'\<bar> = \<bar>s - a\<bar> * \<bar>s'\<bar>" by (simp add: abs_mult)
  also have "\<dots> \<le> (a / 2 ^ 24) * (b * (1 + 1 / 2 ^ 24))"
    using s e1 a b by (intro mult_mono) simp_all
  also have "\<dots> = (a * b) * (1 / 2 ^ 24 + 1 / 2 ^ 48)" by simp
  finally have t1: "\<bar>(s - a) * s'\<bar> \<le> 1 / 2 ^ 24 + 1 / 2 ^ 48" by (simp only: ab mult_1)
  have "\<bar>a * (s' - b)\<bar> = a * \<bar>s' - b\<bar>" using a by (simp add: abs_mult)
  also have "\<dots> \<le> a * (b / 2 ^ 24)" using s' a by (intro mult_left_mono) simp_all
  also have "\<dots> = (a * b) / 2 ^ 24" by simp
  finally have t2: "\<bar>a * (s' - b)\<bar> \<le> 1 / 2 ^ 24" by (simp only: ab)
  have "s * s' - 1 = (s - a) * s' + a * (s' - b)" using ab by (simp add: algebra_simps)
  then have "\<bar>s * s' - 1\<bar> \<le> \<bar>(s - a) * s'\<bar> + \<bar>a * (s' - b)\<bar>"
    by (simp only: abs_triangle_ineq)
  with t1 t2 show ?thesis by simp
qed

text \<open>
  Scaling by \<open>d / 72\<close> and then by \<open>72 / d\<close>, both factors and both products rounded,
  returns the start up to five relative rounding errors of \<open>2 ^ - 24\<close>.
\<close>

lemma scale_round_trip:
  fixes d z :: real
  assumes d: "1 \<le> d" "d \<le> 2400" and z: "\<bar>z\<bar> \<le> 4096"
  shows "\<exists>s s' z1 z2.
           f32_div d 72 = Some s \<and> f32_div 72 d = Some s'
         \<and> f32_mul z s = Some z1 \<and> f32_mul z1 s' = Some z2
         \<and> \<bar>z2 - z\<bar> \<le> 5 * \<bar>z\<bar> / 2 ^ 24 + 1 / 2 ^ 140"
proof -
  define a where "a = d / 72"
  define b where "b = 72 / d"
  have ab: "a * b = 1" using d by (simp add: a_def b_def)
  have a_bounds: "1 / 72 \<le> a" "a \<le> 100 / 3" using d by (simp_all add: a_def field_simps)
  have b_bounds: "3 / 100 \<le> b" "b \<le> 72" using d by (simp_all add: b_def field_simps)
  have apos: "0 < a" and bpos: "0 < b" using a_bounds b_bounds by simp_all
  have "1 / 2 ^ 126 \<le> \<bar>a\<bar>" "\<bar>a\<bar> \<le> 2 ^ 127" using a_bounds by simp_all
  from f32_round_error_normal [OF this] apos
  obtain s where s: "f32_round a = Some s" "\<bar>s - a\<bar> \<le> a / 2 ^ 24" by auto
  have "1 / 2 ^ 126 \<le> \<bar>b\<bar>" "\<bar>b\<bar> \<le> 2 ^ 127" using b_bounds by simp_all
  from f32_round_error_normal [OF this] bpos
  obtain s' where s': "f32_round b = Some s'" "\<bar>s' - b\<bar> \<le> b / 2 ^ 24" by auto
  have kappa: "\<bar>s * s' - 1\<bar> \<le> 2 / 2 ^ 24 + 1 / 2 ^ 48"
    using ab apos bpos s(2) s'(2) by (rule scale_product)
  have sb: "\<bar>s\<bar> \<le> 34" using s(2) a_bounds by (simp add: abs_if split: if_splits)
  have s'b: "\<bar>s'\<bar> \<le> 73" using s'(2) b_bounds by (simp add: abs_if split: if_splits)
  define K where "K = \<bar>z\<bar>"
  have K: "0 \<le> K" "K \<le> 4096" using z by (simp_all add: K_def)
  have ss'b: "\<bar>s * s'\<bar> \<le> 1 + 3 / 2 ^ 24" using kappa by (simp add: abs_if split: if_splits)
  \<comment> \<open>first multiplication\<close>
  have zs: "\<bar>z * s\<bar> \<le> K * 34"
    unfolding K_def abs_mult using sb by (intro mult_left_mono) simp_all
  then have "\<bar>z * s\<bar> \<le> 2 ^ 127" using K by simp
  from f32_round_error [OF this]
  obtain z1 where z1: "f32_round (z * s) = Some z1"
    "\<bar>z1 - z * s\<bar> \<le> \<bar>z * s\<bar> / 2 ^ 24 + 1 / 2 ^ 150" by auto
  \<comment> \<open>second multiplication\<close>
  have m1: "\<bar>(z1 - z * s) * s'\<bar> \<le> K * (1 + 3 / 2 ^ 24) / 2 ^ 24 + 73 / 2 ^ 150"
  proof -
    have "\<bar>(z1 - z * s) * s'\<bar> = \<bar>z1 - z * s\<bar> * \<bar>s'\<bar>" by (simp add: abs_mult)
    also have "\<dots> \<le> (\<bar>z * s\<bar> / 2 ^ 24 + 1 / 2 ^ 150) * \<bar>s'\<bar>"
      using z1(2) by (intro mult_right_mono) simp_all
    also have "\<dots> = K * \<bar>s * s'\<bar> / 2 ^ 24 + \<bar>s'\<bar> / 2 ^ 150"
      by (simp add: K_def abs_mult algebra_simps)
    also have "\<dots> \<le> K * (1 + 3 / 2 ^ 24) / 2 ^ 24 + 73 / 2 ^ 150"
      using ss'b s'b K(1) by (intro add_mono divide_right_mono mult_left_mono) simp_all
    finally show ?thesis .
  qed
  have m2: "\<bar>z * (s * s' - 1)\<bar> \<le> K * (2 / 2 ^ 24 + 1 / 2 ^ 48)"
    unfolding K_def abs_mult using kappa by (intro mult_left_mono) simp_all
  have m3: "\<bar>z * (s * s')\<bar> \<le> K * (1 + 3 / 2 ^ 24)"
    unfolding K_def abs_mult [of z] using ss'b by (intro mult_left_mono) simp_all
  have eq1: "z1 * s' = z * (s * s') + (z1 - z * s) * s'" by (simp add: algebra_simps)
  have m4: "\<bar>z1 * s'\<bar>
              \<le> K * (1 + 3 / 2 ^ 24) + (K * (1 + 3 / 2 ^ 24) / 2 ^ 24 + 73 / 2 ^ 150)"
    unfolding eq1 using m1 m3 by (intro order_trans [OF abs_triangle_ineq] add_mono)
  have "\<bar>z1 * s'\<bar> \<le> 2 ^ 127" using m4 K by simp
  from f32_round_error [OF this]
  obtain z2 where z2: "f32_round (z1 * s') = Some z2"
    "\<bar>z2 - z1 * s'\<bar> \<le> \<bar>z1 * s'\<bar> / 2 ^ 24 + 1 / 2 ^ 150" by auto
  have eq2: "z2 - z = (z2 - z1 * s') + (z1 - z * s) * s' + z * (s * s' - 1)"
    by (simp add: algebra_simps)
  have "\<bar>z2 - z\<bar> \<le> \<bar>z2 - z1 * s'\<bar> + \<bar>(z1 - z * s) * s'\<bar> + \<bar>z * (s * s' - 1)\<bar>"
    unfolding eq2
    by (intro order_trans [OF abs_triangle_ineq] add_mono abs_triangle_ineq order_refl)
  then have "\<bar>z2 - z\<bar> \<le> 5 * K / 2 ^ 24 + 1 / 2 ^ 140"
    using z2(2) m1 m2 m4 K by simp
  then show ?thesis
    using s(1) s'(1) z1(1) z2(1) d
    by (simp add: f32_div_def f32_mul_def a_def b_def K_def)
qed

lemma f32_round_eval:
  assumes "- 149 \<le> e" "e \<le> 104" "\<bar>x\<bar> < 2 powi (e + 24)"
    "e = - 149 \<or> 2 powi (e + 23) \<le> \<bar>x\<bar>"
  shows "f32_round x =
           (let r = real_of_int (round_half_even (x / 2 powi e)) * 2 powi e
            in if \<bar>r\<bar> < 2 ^ 128 then Some r else None)"
  using f32_exponent_eqI [OF assms] by (simp add: f32_round_def Let_def)

lemma f32_round_0: "f32_round 0 = Some 0"
  by (simp add: f32_round_eval [of "- 149"] round_half_even_def)

lemma f32_round_1: "f32_round 1 = Some 1"
  by (simp add: f32_round_eval [of "- 23"] round_half_even_def power_int_minus)

lemma f32_round_2p24: "f32_round 16777216 = Some 16777216"
  by (simp add: f32_round_eval [of 1] round_half_even_def)

lemma f32_round_2p24_less: "f32_round (16777216 - 1 / 4) = Some 16777216"
proof -
  have "\<lfloor>67108863 / 4 :: real\<rfloor> = 16777215" by (simp add: floor_eq_iff)
  then show ?thesis
    by (simp add: f32_round_eval [of 0] round_half_even_def)
qed

section \<open>Properties of the coordinate transforms\<close>

text \<open>
  C4, as amended. For a DPI between 1 and 2400, a page height of at most 1200 points and
  a point with \<open>\<bar>x\<bar> \<le> 3000\<close> and \<open>\<bar>y\<bar> \<le> 1200\<close>, both transforms return finite points and
  \<open>pixel_to_page\<close> after \<open>page_to_pixel\<close> returns the point within \<open>1e-3\<close> in each
  coordinate.
\<close>

theorem page_pixel_round_trip:
  assumes d: "1 \<le> d" "d \<le> 2400" and h: "0 < h" "h \<le> 1200"
    and x: "\<bar>px p\<bar> \<le> 3000" and y: "\<bar>py p\<bar> \<le> 1200"
  shows "\<exists>q r. page_to_pixel p d h = Some q \<and> pixel_to_page q d h = Some r
           \<and> \<bar>px r - px p\<bar> \<le> 1 / 1000 \<and> \<bar>py r - py p\<bar> \<le> 1 / 1000"
proof -
  have "\<bar>px p\<bar> \<le> 4096" using x by simp
  from scale_round_trip [OF d this]
  obtain s s' x1 x2 where
    s: "f32_div d 72 = Some s" and s': "f32_div 72 d = Some s'"
    and x1: "f32_mul (px p) s = Some x1" and x2: "f32_mul x1 s' = Some x2"
    and ex: "\<bar>x2 - px p\<bar> \<le> 5 * \<bar>px p\<bar> / 2 ^ 24 + 1 / 2 ^ 140" by blast
  \<comment> \<open>the flipped ordinate \<open>u\<close> and its rounded value \<open>t\<close>\<close>
  define u where "u = h - py p"
  have ub: "\<bar>u\<bar> \<le> 2400" using h y by (simp add: u_def)
  then have "\<bar>u\<bar> \<le> 2 ^ 127" by simp
  from f32_round_error [OF this]
  obtain t where t: "f32_round u = Some t"
    and et: "\<bar>t - u\<bar> \<le> \<bar>u\<bar> / 2 ^ 24 + 1 / 2 ^ 150" by auto
  define dt where "dt = t - u"
  have dt: "\<bar>dt\<bar> \<le> \<bar>u\<bar> / 2 ^ 24 + 1 / 2 ^ 150" using et by (simp add: dt_def)
  have tb: "\<bar>t\<bar> \<le> 2401"
  proof -
    have "t = u + dt" by (simp add: dt_def)
    then show ?thesis using dt ub by (simp; linarith)
  qed
  then have "\<bar>t\<bar> \<le> 4096" by simp
  from scale_round_trip [OF d this] s s'
  obtain y1 y2 where
    y1: "f32_mul t s = Some y1" and y2: "f32_mul y1 s' = Some y2"
    and ey: "\<bar>y2 - t\<bar> \<le> 5 * \<bar>t\<bar> / 2 ^ 24 + 1 / 2 ^ 140" by auto
  define dy where "dy = y2 - t"
  have dy: "\<bar>dy\<bar> \<le> 5 * \<bar>t\<bar> / 2 ^ 24 + 1 / 2 ^ 140" using ey by (simp add: dy_def)
  \<comment> \<open>flipping back\<close>
  define v where "v = h - y2"
  have v: "v = py p - dt - dy" by (simp add: v_def dy_def dt_def u_def)
  have vb: "\<bar>v\<bar> \<le> 1202" using v dt dy tb ub y by (simp; linarith)
  then have "\<bar>v\<bar> \<le> 2 ^ 127" by simp
  from f32_round_error [OF this]
  obtain y3 where y3: "f32_round v = Some y3"
    and e3: "\<bar>y3 - v\<bar> \<le> \<bar>v\<bar> / 2 ^ 24 + 1 / 2 ^ 150" by auto
  define d3 where "d3 = y3 - v"
  have d3: "\<bar>d3\<bar> \<le> \<bar>v\<bar> / 2 ^ 24 + 1 / 2 ^ 150" using e3 by (simp add: d3_def)
  have q: "page_to_pixel p d h = Some \<lparr>px = x1, py = y1\<rparr>"
    using s x1 t y1 by (simp add: page_to_pixel_def f32_sub_def u_def)
  have r: "pixel_to_page \<lparr>px = x1, py = y1\<rparr> d h = Some \<lparr>px = x2, py = y3\<rparr>"
    using s' x2 y2 y3 by (simp add: pixel_to_page_def f32_sub_def v_def)
  have "\<bar>x2 - px p\<bar> \<le> 1 / 1000"
  proof -
    define dx where "dx = x2 - px p"
    have "\<bar>dx\<bar> \<le> 5 * \<bar>px p\<bar> / 2 ^ 24 + 1 / 2 ^ 140" using ex by (simp add: dx_def)
    then have "\<bar>dx\<bar> \<le> 1 / 1000" using x by (simp; linarith)
    then show ?thesis by (simp add: dx_def)
  qed
  moreover have "\<bar>y3 - py p\<bar> \<le> 1 / 1000"
  proof -
    define g where "g = y3 - py p"
    have b3: "\<bar>d3\<bar> \<le> 72 / 1000000" using d3 vb by (simp; linarith)
    have b1: "\<bar>dt\<bar> \<le> 144 / 1000000" using dt ub by (simp; linarith)
    have b2: "\<bar>dy\<bar> \<le> 716 / 1000000" using dy tb by (simp; linarith)
    have "g = d3 - dt - dy" by (simp add: g_def d3_def v)
    then have "\<bar>g\<bar> \<le> 1 / 1000" using b3 b1 b2 by linarith
    then show ?thesis by (simp add: g_def)
  qed
  ultimately show ?thesis using q r by simp
qed

text \<open>The amended C4 at the centre of a US Letter page and 150 DPI.\<close>

theorem page_pixel_round_trip_witness:
  "\<exists>q r. page_to_pixel \<lparr>px = 306, py = 396\<rparr> 150 792 = Some q
         \<and> pixel_to_page q 150 792 = Some r
         \<and> \<bar>px r - 306\<bar> \<le> 1 / 1000 \<and> \<bar>py r - 396\<bar> \<le> 1 / 1000"
  using page_pixel_round_trip [of 150 792 "\<lparr>px = 306, py = 396\<rparr>"] by simp

text \<open>
  C4 as stated fails for large magnitudes: at 72 DPI and a page height of \<open>2 ^ 24\<close> points
  the point \<open>(0, 0.25)\<close> maps to the pixel \<open>(0, 2 ^ 24)\<close>, because \<open>2 ^ 24 - 0.25\<close> rounds
  to \<open>2 ^ 24\<close>, and back to \<open>(0, 0)\<close>, which is 0.25 away.
\<close>

theorem page_pixel_round_trip_counterexample:
  "page_to_pixel \<lparr>px = 0, py = 1 / 4\<rparr> 72 16777216 = Some \<lparr>px = 0, py = 16777216\<rparr>
   \<and> pixel_to_page \<lparr>px = 0, py = 16777216\<rparr> 72 16777216 = Some \<lparr>px = 0, py = 0\<rparr>
   \<and> \<not> \<bar>(0::real) - 1 / 4\<bar> \<le> 1 / 1000"
  using f32_round_2p24_less
  by (simp add: page_to_pixel_def pixel_to_page_def f32_div_def f32_mul_def f32_sub_def
      f32_round_0 f32_round_1 f32_round_2p24)

section \<open>Properties of the geometry utilities\<close>














section \<open>Properties of tiling\<close>

text \<open>
  C1 fails on a page whose width is not a whole number of points. For a page of 595.25 by
  842 points and tiles of 119 by 842, \<open>calculate_tiles\<close> counts six columns from the full
  width but clamps every right edge to the truncated width 595: the sixth tile is the
  empty rectangle from 595 to 595, and the page point \<open>(595.125, 1)\<close> lies in no tile.
\<close>

theorem calculate_tiles_fractional_width:
  "map page_rect
       (calculate_tiles (Some \<lparr>Page_width = 595.25, Page_height = 842, Page_handle = 1\<rparr>)
          119 842 RenderOptions_default)
     = [\<lparr>x0 = 0, y0 = 0, x1 = 119, y1 = 842\<rparr>,
        \<lparr>x0 = 119, y0 = 0, x1 = 238, y1 = 842\<rparr>,
        \<lparr>x0 = 238, y0 = 0, x1 = 357, y1 = 842\<rparr>,
        \<lparr>x0 = 357, y0 = 0, x1 = 476, y1 = 842\<rparr>,
        \<lparr>x0 = 476, y0 = 0, x1 = 595, y1 = 842\<rparr>,
        \<lparr>x0 = 595, y0 = 0, x1 = 595, y1 = 842\<rparr>]
   \<and> filter (\<lambda>t. rect_contains (page_rect t) (595.125, 1))
        (calculate_tiles (Some \<lparr>Page_width = 595.25, Page_height = 842, Page_handle = 1\<rparr>)
           119 842 RenderOptions_default) = []"
  by (simp add: calculate_tiles_def make_tile_def to_int_def upto_rec1 rect_contains_def)

text \<open>
  The defect is confined to fractional page sizes. For a page whose width and height are
  whole numbers of points and tiles of at least 1 by 1, every point of the page lies in
  exactly one tile, and every tile is a non-empty rectangle inside the page.
\<close>

lemma calculate_tiles_set:
  "set (calculate_tiles (Some p) tw th options)
     = {make_tile p tw th row col | row col.
          0 \<le> row \<and> row < \<lceil>Page_height p / real_of_int th\<rceil>
        \<and> 0 \<le> col \<and> col < \<lceil>Page_width p / real_of_int tw\<rceil>}"
  by (auto simp: calculate_tiles_def Let_def) blast

lemma tile_column_exists:
  fixes x :: real and tw W :: int
  assumes "1 \<le> tw" "0 \<le> x" "x < real_of_int W"
  defines "c \<equiv> \<lfloor>x / real_of_int tw\<rfloor>"
  shows "0 \<le> c" and "c < \<lceil>real_of_int W / real_of_int tw\<rceil>"
    and "real_of_int (c * tw) \<le> x" and "x < real_of_int (min ((c + 1) * tw) W)"
proof -
  have tw: "0 < real_of_int tw" using assms(1) by simp
  show "0 \<le> c" using assms(2) tw by (simp add: c_def)
  have "real_of_int c \<le> x / real_of_int tw" by (simp add: c_def)
  also have "\<dots> < real_of_int W / real_of_int tw"
    using assms(3) tw by (simp add: divide_strict_right_mono)
  finally show "c < \<lceil>real_of_int W / real_of_int tw\<rceil>" by (simp add: less_ceiling_iff)
  have "real_of_int c \<le> x / real_of_int tw" by (simp add: c_def)
  then show "real_of_int (c * tw) \<le> x" using tw by (simp add: field_simps)
  have "x / real_of_int tw < real_of_int c + 1" by (simp add: c_def)
  then have "x < real_of_int ((c + 1) * tw)" using tw by (simp add: field_simps)
  then show "x < real_of_int (min ((c + 1) * tw) W)"
    using assms(3) by (simp add: min_def)
qed

lemma tile_column_unique:
  fixes x :: real and tw W c :: int
  assumes "1 \<le> tw" "real_of_int (c * tw) \<le> x" "x < real_of_int (min ((c + 1) * tw) W)"
  shows "c = \<lfloor>x / real_of_int tw\<rfloor>"
proof -
  have tw: "0 < real_of_int tw" using assms(1) by simp
  have "min ((c + 1) * tw) W \<le> (c + 1) * tw" by (rule min.cobounded1)
  then have "real_of_int (min ((c + 1) * tw) W) \<le> real_of_int ((c + 1) * tw)"
    by (rule of_int_le_iff [THEN iffD2])
  with assms(3) have "x < real_of_int ((c + 1) * tw)" by (rule less_le_trans)
  then have "x / real_of_int tw < real_of_int c + 1" using tw by (simp add: field_simps)
  moreover have "real_of_int c \<le> x / real_of_int tw"
    using assms(2) tw by (simp add: field_simps)
  ultimately show ?thesis by (simp add: floor_unique)
qed

lemma calculate_tiles_partition_integral:
  fixes W H tw th :: int and x y :: real
  assumes sz: "1 \<le> tw" "1 \<le> th"
    and pg: "Page_width p = real_of_int W" "Page_height p = real_of_int H"
    and pt: "0 \<le> x" "x < real_of_int W" "0 \<le> y" "y < real_of_int H"
  shows "\<exists>!t. t \<in> set (calculate_tiles (Some p) tw th options)
              \<and> rect_contains (page_rect t) (x, y)"
proof -
  define c where "c = \<lfloor>x / real_of_int tw\<rfloor>"
  define r where "r = \<lfloor>y / real_of_int th\<rfloor>"
  have W: "0 \<le> W" and H: "0 \<le> H" using pt by linarith+
  have ti: "to_int (real_of_int W) = W" "to_int (real_of_int H) = H"
    using W H by (simp_all add: to_int_def)
  note cx = tile_column_exists [OF sz(1) pt(1,2), folded c_def]
  note ry = tile_column_exists [OF sz(2) pt(3,4), folded r_def]
  show ?thesis
  proof (rule ex1I [of _ "make_tile p tw th r c"])
    show "make_tile p tw th r c \<in> set (calculate_tiles (Some p) tw th options)
            \<and> rect_contains (page_rect (make_tile p tw th r c)) (x, y)"
      using cx ry by (auto simp: calculate_tiles_set pg ti make_tile_def rect_contains_def)
  next
    fix t
    assume t: "t \<in> set (calculate_tiles (Some p) tw th options)
                 \<and> rect_contains (page_rect t) (x, y)"
    then obtain row col where rc: "t = make_tile p tw th row col"
      by (auto simp: calculate_tiles_set)
    from t have "real_of_int (col * tw) \<le> x" "x < real_of_int (min ((col + 1) * tw) W)"
      "real_of_int (row * th) \<le> y" "y < real_of_int (min ((row + 1) * th) H)"
      by (simp_all add: rc make_tile_def rect_contains_def pg ti)
    then have "col = c" "row = r"
      using tile_column_unique [OF sz(1), of col x W] tile_column_unique [OF sz(2), of row y H]
      by (simp_all add: c_def r_def)
    then show "t = make_tile p tw th r c" by (simp add: rc)
  qed
qed


lemma calculate_tiles_nonempty_integral:
  fixes W H tw th :: int
  assumes sz: "1 \<le> tw" "1 \<le> th"
    and pg: "Page_width p = real_of_int W" "Page_height p = real_of_int H"
    and t: "t \<in> set (calculate_tiles (Some p) tw th options)"
  shows "0 \<le> x0 (page_rect t) \<and> x0 (page_rect t) < x1 (page_rect t)
           \<and> x1 (page_rect t) \<le> Page_width p
         \<and> 0 \<le> y0 (page_rect t) \<and> y0 (page_rect t) < y1 (page_rect t)
           \<and> y1 (page_rect t) \<le> Page_height p"
proof -
  from t obtain row col where rc: "t = make_tile p tw th row col"
    and row: "0 \<le> row" "row < \<lceil>real_of_int H / real_of_int th\<rceil>"
    and col: "0 \<le> col" "col < \<lceil>real_of_int W / real_of_int tw\<rceil>"
    by (auto simp: calculate_tiles_set pg)
  have edge: "0 \<le> c * n \<and> c * n < min ((c + 1) * n) (to_int (real_of_int L))
                \<and> min ((c + 1) * n) (to_int (real_of_int L)) \<le> L"
    if "1 \<le> n" "0 \<le> c" "c < \<lceil>real_of_int L / real_of_int n\<rceil>" for c n L :: int
  proof -
    have n: "0 < real_of_int n" using that(1) by simp
    have "real_of_int c < real_of_int L / real_of_int n"
      using that(3) by (simp add: less_ceiling_iff)
    then have "real_of_int (c * n) < real_of_int L" using n by (simp add: field_simps)
    then have l: "c * n < L" by (simp only: of_int_less_iff)
    moreover have "0 \<le> c * n" using that(1,2) by simp
    ultimately have "to_int (real_of_int L) = L" by (simp add: to_int_def)
    moreover have "c * n < (c + 1) * n" using that(1) by (simp add: algebra_simps)
    ultimately show ?thesis using l \<open>0 \<le> c * n\<close> by simp
  qed
  from edge [OF sz(1) col] edge [OF sz(2) row] show ?thesis
    unfolding rc make_tile_def pg by (simp del: of_int_mult of_int_min)
qed

section \<open>Properties of single-page rendering\<close>

lemma render_test_page_72:
  "render_page (MuPDF test_engine) (Some test_page) (RenderOptions_default\<lparr>dpi := 72\<rparr>)
     = Result_value
         (Some \<lparr>data = [255, 255, 255], width = 1, height = 1, stride = 3, format = RGB24\<rparr>)"
  by (simp add: render_page_def test_engine_def test_page_def RenderOptions_default_def
      to_int_def buffer_of_pixmap_def Let_def numeral_3_eq_3)

text \<open>
  C7. \<open>render_page_to_buffer\<close> returns \<open>false\<close> and leaves the caller's buffer as it was
  when the render fails or when \<open>buffer_size\<close> is smaller than the image's byte count, even
  by one byte; no branch throws. When the render succeeds and the image fits into
  \<open>buffer_size\<close> bytes of caller memory, it returns \<open>true\<close> and the buffer starts with the
  image bytes.
\<close>

theorem render_page_to_buffer_size_check:
  "(\<not> is_ok (render_page be page options) \<longrightarrow>
      render_page_to_buffer be page buffer buffer_size options = Some (False, buffer))
   \<and> (\<forall>img. render_page be page options = Result_value (Some img) \<longrightarrow>
        (buffer_size < ImageBuffer_size img \<longrightarrow>
           render_page_to_buffer be page buffer buffer_size options = Some (False, buffer))
      \<and> (ImageBuffer_size img \<le> buffer_size \<and> buffer_size \<le> length buffer \<longrightarrow>
           render_page_to_buffer be page buffer buffer_size options
             = Some (True, data img @ drop (ImageBuffer_size img) buffer)))"
  by (auto simp: render_page_to_buffer_def Let_def memcpy_def ImageBuffer_size_def
        Result_value_def is_ok_def)

text \<open>
  C7 at a three-byte image: a two-byte buffer is refused and untouched, a four-byte buffer
  receives the three bytes, and a failed render leaves the buffer untouched.
\<close>

theorem render_page_to_buffer_size_check_witness:
  "render_page_to_buffer (MuPDF test_engine) (Some test_page) [7, 7] 2
       (RenderOptions_default\<lparr>dpi := 72\<rparr>) = Some (False, [7, 7])
   \<and> render_page_to_buffer (MuPDF test_engine) (Some test_page) [7, 7, 7, 7] 4
       (RenderOptions_default\<lparr>dpi := 72\<rparr>) = Some (True, [255, 255, 255, 7])
   \<and> render_page_to_buffer NoBackend (Some test_page) [7, 7, 7, 7] 4
       (RenderOptions_default\<lparr>dpi := 72\<rparr>) = Some (False, [7, 7, 7, 7])"
proof -
  let ?o = "RenderOptions_default\<lparr>dpi := 72\<rparr>"
  let ?img = "\<lparr>data = [255, 255, 255], width = 1, height = 1, stride = 3,
                format = RGB24\<rparr> :: ImageBuffer"
  have r: "render_page (MuPDF test_engine) (Some test_page) ?o = Result_value (Some ?img)"
    by (rule render_test_page_72)
  have n: "\<not> is_ok (render_page NoBackend (Some test_page) ?o)"
    by (simp add: render_page_def Result_error_def is_ok_def)
  show ?thesis
    using
      render_page_to_buffer_size_check [of "MuPDF test_engine" "Some test_page" ?o "[7, 7]" 2]
      render_page_to_buffer_size_check
        [of "MuPDF test_engine" "Some test_page" ?o "[7, 7, 7, 7]" 4]
      render_page_to_buffer_size_check [of NoBackend "Some test_page" ?o "[7, 7, 7, 7]" 4]
      r n
    by (simp add: ImageBuffer_size_def)
qed

text \<open>
  C8, as amended. \<open>render_page_scaled\<close> is \<open>render_page\<close> at the DPI of the given options
  multiplied by the mean of the two scale factors (not at \<open>72 * scale\<close>);
  \<open>render_page_to_size\<close> is \<open>render_page\<close> at \<open>72 * min(width/page_width,
  height/page_height)\<close>. All other option fields are unchanged.
\<close>

theorem render_page_wrappers:
  "render_page_scaled be page scale_x scale_y options
     = render_page be page (options\<lparr>dpi := dpi options * ((scale_x + scale_y) / 2)\<rparr>)
   \<and> render_page_to_size be page w h options = spec_render_page_to_size be page w h options"
  by (cases page)
     (simp_all add: render_page_scaled_def render_page_to_size_def spec_render_page_to_size_def
        render_page_def Let_def)

text \<open>
  C8 as stated fails for \<open>render_page_scaled\<close>: with the default options (150 DPI) and
  scale 1 in both directions the code renders at 150 DPI, a 2 by 2 image on the stand-in
  engine, while \<open>render_page\<close> at \<open>72 * 1\<close> DPI gives a 1 by 1 image.
\<close>

theorem render_page_scaled_counterexample:
  "render_page_scaled (MuPDF test_engine) (Some test_page) 1 1 RenderOptions_default
     \<noteq> spec_render_page_scaled (MuPDF test_engine) (Some test_page) 1 RenderOptions_default"
proof -
  have a: "map_option width (res_value
             (render_page_scaled (MuPDF test_engine) (Some test_page) 1 1
                RenderOptions_default)) = Some 2"
    by (simp add: render_page_scaled_def render_page_def test_engine_def test_page_def
        RenderOptions_default_def to_int_def buffer_of_pixmap_def Let_def Result_value_def)
  have b: "map_option width (res_value
             (spec_render_page_scaled (MuPDF test_engine) (Some test_page) 1
                RenderOptions_default)) = Some 1"
    by (simp add: spec_render_page_scaled_def render_page_def test_engine_def test_page_def
        RenderOptions_default_def to_int_def buffer_of_pixmap_def Let_def Result_value_def)
  show ?thesis
    using a b by auto
qed

section \<open>Properties of render jobs\<close>

text \<open>
  C6. \<open>cancel\<close> on a \<open>Pending\<close> job leaves it \<open>Cancelled\<close>; on a job in a terminal state it
  changes nothing; and \<open>get_result\<close> on a \<open>Cancelled\<close> job returns, with error code
  \<open>RenderError\<close> and a null buffer pointer.
\<close>

theorem cancel_pending_job:
  "(status job = Pending \<longrightarrow> status (cancel job) = Cancelled)
   \<and> (is_terminal (status job) \<longrightarrow> cancel job = job)
   \<and> (status job = Cancelled \<longrightarrow>
        (\<exists>r. get_result make_result job = Some (r, job) \<and> res_error r = RenderError
             \<and> res_value r = None))"
  by (auto simp: cancel_def is_terminal_def get_result_def wait_def Result_error_def)

text \<open>C6 on a freshly created job, cancelled once and then once more.\<close>

theorem cancel_pending_job_witness:
  "status (cancel RenderJob_new) = Cancelled
   \<and> cancel (cancel RenderJob_new) = cancel RenderJob_new
   \<and> (\<exists>r. get_result (\<lambda>b. (b, None)) (cancel RenderJob_new)
              = Some (r, cancel RenderJob_new)
          \<and> res_error r = RenderError \<and> res_value r = None)"
  using cancel_pending_job [of RenderJob_new]
    cancel_pending_job [of "cancel RenderJob_new" "\<lambda>b. (b, None)"]
  by (simp add: RenderJob_new_def is_terminal_def)

section \<open>Properties of the asynchronous renderer\<close>

lemma queue_batch_loop_eq:
  "queue_batch_loop store doc options idxs jobs
     = (jobs @ [length store ..< length store + present_count doc idxs],
        store @ replicate (present_count doc idxs) RenderJob_new)"
proof (induction idxs arbitrary: store jobs)
  case Nil
  then show ?case by (simp add: present_count_def)
next
  case (Cons idx rest)
  show ?case
  proof (cases "get_page doc idx")
    case None
    then show ?thesis by (simp add: Cons.IH present_count_def)
  next
    case (Some p)
    have c: "present_count doc (idx # rest) = Suc (present_count doc rest)"
      using Some by (simp add: present_count_def)
    show ?thesis
      using Some
      by (simp add: Cons.IH queue_render_def c upt_conv_Cons replicate_app_Cons_same
            del: upt_Suc)
  qed
qed

lemma queue_batch_statuses:
  "map (\<lambda>j. status (wait_all (snd (queue_batch store doc idxs options)) ! j))
       (fst (queue_batch store doc idxs options))
     = replicate (present_count doc idxs) Pending"
proof -
  have "map (\<lambda>j. status ((store @ replicate m RenderJob_new) ! j))
            [length store ..< length store + m]
          = replicate m Pending" for m
    by (rule nth_equalityI) (simp_all add: nth_append RenderJob_new_def)
  then show ?thesis
    by (simp add: queue_batch_def queue_batch_loop_eq wait_all_def)
qed

text \<open>
  C5, as amended. \<open>queue_batch\<close> returns one job for every requested index that has a
  page; \<open>wait_all\<close> returns at once and changes no job, so after it every queued job is
  still \<open>Pending\<close>; \<open>pending_count\<close> is 0.
\<close>

theorem queue_batch_jobs_stay_pending:
  "length (fst (queue_batch store doc idxs options)) = present_count doc idxs
   \<and> map (\<lambda>j. status (wait_all (snd (queue_batch store doc idxs options)) ! j))
         (fst (queue_batch store doc idxs options))
       = replicate (present_count doc idxs) Pending
   \<and> pending_count (wait_all (snd (queue_batch store doc idxs options))) = 0"
  by (simp add: queue_batch_statuses pending_count_def)
     (simp add: queue_batch_def queue_batch_loop_eq)

text \<open>The amended C5 on a two-page document and the indices 0, 7, 1.\<close>

theorem queue_batch_jobs_stay_pending_witness:
  "length (fst (queue_batch [] doc2 [0, 7, 1] RenderOptions_default)) = 2
   \<and> map (\<lambda>j. status (wait_all (snd (queue_batch [] doc2 [0, 7, 1] RenderOptions_default)) ! j))
         (fst (queue_batch [] doc2 [0, 7, 1] RenderOptions_default))
       = [Pending, Pending]
   \<and> pending_count (wait_all (snd (queue_batch [] doc2 [0, 7, 1] RenderOptions_default))) = 0"
proof -
  have "present_count doc2 [0, 7, 1] = 2"
    by (simp add: present_count_def doc2_def get_page_def)
  then show ?thesis
    using queue_batch_jobs_stay_pending [of "[]" doc2 "[0, 7, 1]" RenderOptions_default]
    by (simp add: numeral_2_eq_2)
qed

lemma present_count_doc50: "present_count doc50 [0..49] = 50"
  by (simp add: present_count_def doc50_def get_page_def upto_rec1)

text \<open>
  C5 as stated fails: after queuing the fifty pages of a fifty-page document and calling
  \<open>wait_all\<close>, the fifty jobs are all \<open>Pending\<close>, which is not a terminal state.
\<close>

theorem wait_all_terminal_counterexample:
  "fst (queue_batch [] doc50 [0..49] RenderOptions_default) = [0..<50]
   \<and> map status (wait_all (snd (queue_batch [] doc50 [0..49] RenderOptions_default)))
       = replicate 50 Pending
   \<and> \<not> is_terminal Pending"
  by (simp add: queue_batch_def queue_batch_loop_eq present_count_doc50 wait_all_def
        RenderJob_new_def is_terminal_def)

section \<open>Properties of the render cache\<close>

lemma exec_call_cache_empty:
  "cache r = Map.empty \<Longrightarrow> cache (fst (exec_call be r c)) = Map.empty"
  by (cases c)
     (simp_all add: set_cache_enabled_def set_cache_size_def clear_cache_def
        invalidate_page_def)

lemma exec_calls_cache_empty:
  "cache r = Map.empty \<Longrightarrow> cache (exec_calls be r cs) = Map.empty"
  by (induction cs arbitrary: r) (simp_all add: exec_call_cache_empty)

text \<open>
  C3, as amended. The renderer owns a map from page handle to buffer, but nothing inserts
  into it: after any sequence of \<open>render_page\<close>, \<open>set_cache_enabled\<close>, \<open>set_cache_size\<close>,
  \<open>clear_cache\<close> and \<open>invalidate_page\<close> calls on a new renderer the map is empty, so there
  is no eviction and no cache hit; every \<open>render_page\<close> call leaves the renderer state as
  it is and returns what the engine produces.
\<close>

theorem render_cache_never_populated:
  "cache (exec_calls be Renderer_new calls) = Map.empty
   \<and> exec_call be r (Call_render_page page options)
       = (r, Some (render_page be page options))"
  by (simp add: exec_calls_cache_empty Renderer_new_def)

text \<open>
  C3 as stated fails: with the cache size set to 1, two distinct pages rendered
  successfully leave no entry in the cache, not one.
\<close>

theorem render_cache_counterexample:
  "is_ok (render_page (MuPDF test_engine) (Some test_page) RenderOptions_default)
   \<and> is_ok (render_page (MuPDF test_engine) (Some (test_page\<lparr>Page_handle := 2\<rparr>))
             RenderOptions_default)
   \<and> dom (cache (exec_calls (MuPDF test_engine) Renderer_new
        [Call_set_cache_size 1,
         Call_render_page (Some test_page) RenderOptions_default,
         Call_render_page (Some (test_page\<lparr>Page_handle := 2\<rparr>)) RenderOptions_default]))
       = {}"
  by (simp add: render_page_def test_engine_def test_page_def is_ok_def Result_value_def
        Let_def Renderer_new_def set_cache_size_def)

section \<open>Properties of batch rendering\<close>

lemma render_pages_loop_None:
  "render_pages_loop be doc options None n i idxs results
     = results @ map (page_slot be doc options) idxs"
  by (induction idxs arbitrary: i results) (simp_all add: page_slot_def)

lemma render_pages_loop_Some:
  "render_pages_loop be doc options (Some f) n i idxs results
     = results @ map (page_slot be doc options)
         (take (callback_prefix f n i (map (\<lambda>idx. ''Rendering page '' @ to_string idx) idxs))
            idxs)"
  by (induction idxs arbitrary: i results) (simp_all add: page_slot_def)

lemma render_pages_eq:
  "render_pages be doc idxs options callback
     = map (page_slot be doc options)
         (take (processed callback (int (length idxs))
                  (map (\<lambda>idx. ''Rendering page '' @ to_string idx) idxs)) idxs)"
  by (cases callback)
     (simp_all add: render_pages_def processed_def render_pages_loop_None
        render_pages_loop_Some)

lemma thumbs_loop_None:
  "\<forall>i \<in> set ixs. 0 \<le> i \<and> i < page_count doc \<Longrightarrow>
   render_all_thumbnails_loop be doc mw mh None ixs results
     = results @ map (\<lambda>i. render_thumbnail be (get_page doc i) mw mh True) ixs"
  by (induction ixs arbitrary: results) (simp_all add: get_page_def)

lemma thumbs_loop_Some:
  "0 \<le> i \<Longrightarrow> j < page_count doc \<Longrightarrow>
   render_all_thumbnails_loop be doc mw mh (Some f) [i..j] results
     = results @ map (\<lambda>i. render_thumbnail be (get_page doc i) mw mh True)
         (take (callback_prefix f (page_count doc) i
                  (map (\<lambda>i. ''Generating thumbnail '' @ to_string (i + 1)) [i..j])) [i..j])"
proof (induction i j arbitrary: results rule: upto.induct)
  case (1 i j)
  show ?case
  proof (cases "i \<le> j")
    case False
    then show ?thesis by simp
  next
    case True
    then have u: "[i..j] = i # [i + 1..j]" by (simp add: upto_rec1)
    have g: "get_page doc i = Some (pages doc i)"
      using True 1(2,3) by (simp add: get_page_def)
    show ?thesis
      using 1(1) [OF True] 1(2,3) by (simp add: u g)
  qed
qed

lemma render_all_thumbnails_eq:
  "render_all_thumbnails be (Some doc) mw mh callback
     = map (\<lambda>i. render_thumbnail be (get_page doc i) mw mh True)
         (take (processed callback (page_count doc)
                  (map (\<lambda>i. ''Generating thumbnail '' @ to_string (i + 1))
                     [0..page_count doc - 1]))
            [0..page_count doc - 1])"
proof (cases callback)
  case None
  then show ?thesis
    by (simp add: render_all_thumbnails_def processed_def thumbs_loop_None)
next
  case (Some f)
  then show ?thesis
    by (simp add: render_all_thumbnails_def processed_def thumbs_loop_Some)
qed

text \<open>
  C9. Every batch API returns, position by position, the own result of each item it
  processes: \<open>render_pages\<close> and \<open>render_all_pages\<close> store for each index the page's render
  result or, when the index has no page, an \<open>InvalidArgument\<close> error; \<open>render_all_thumbnails\<close>
  stores each page's thumbnail result (every index it visits has a page). How many items
  are processed is decided by the progress callback alone, and is all of them when there
  is no callback: a failing page neither stops the batch nor loses its slot.
\<close>

theorem batch_results_per_item:
  "render_pages be doc idxs options callback
     = map (page_slot be doc options)
         (take (processed callback (int (length idxs))
                  (map (\<lambda>idx. ''Rendering page '' @ to_string idx) idxs)) idxs)
   \<and> render_all_pages be (Some doc) options callback
     = map (page_slot be doc options)
         (take (processed callback (int (length [0..page_count doc - 1]))
                  (map (\<lambda>idx. ''Rendering page '' @ to_string idx) [0..page_count doc - 1]))
            [0..page_count doc - 1])
   \<and> render_all_thumbnails be (Some doc) mw mh callback
     = map (\<lambda>i. render_thumbnail be (get_page doc i) mw mh True)
         (take (processed callback (page_count doc)
                  (map (\<lambda>i. ''Generating thumbnail '' @ to_string (i + 1))
                     [0..page_count doc - 1]))
            [0..page_count doc - 1])
   \<and> processed None n msgs = length msgs"
  by (simp add: render_pages_eq render_all_thumbnails_eq render_all_pages_def processed_def)

text \<open>
  C9 on a two-page document whose first page has a null engine handle: the failed page and
  the missing index 5 each get an error slot, and the good page is still rendered.
\<close>

theorem batch_results_per_item_witness:
  "render_pages (MuPDF test_engine) doc2 [0, 5, 1] (RenderOptions_default\<lparr>dpi := 72\<rparr>) None
     = [Result_error RenderError ''Invalid page handle'',
        Result_error InvalidArgument ''Invalid page index'',
        Result_value (Some \<lparr>data = [255, 255, 255], width = 1, height = 1, stride = 3,
                             format = RGB24\<rparr>)]
   \<and> render_all_pages (MuPDF test_engine) (Some doc2) (RenderOptions_default\<lparr>dpi := 72\<rparr>) None
     = [Result_error RenderError ''Invalid page handle'',
        Result_value (Some \<lparr>data = [255, 255, 255], width = 1, height = 1, stride = 3,
                             format = RGB24\<rparr>)]
   \<and> map res_error (render_all_thumbnails (MuPDF test_engine) (Some doc2) 612 792 None)
     = [RenderError, Success]"
proof -
  have p0: "get_page doc2 0 = Some (test_page\<lparr>Page_handle := 0\<rparr>)"
    and p1: "get_page doc2 1 = Some test_page"
    and p5: "get_page doc2 5 = None"
    by (simp_all add: get_page_def doc2_def test_page_def)
  have r0: "render_page (MuPDF test_engine) (Some (test_page\<lparr>Page_handle := 0\<rparr>)) opts
              = Result_error RenderError ''Invalid page handle''" for opts
    by (simp add: render_page_def test_engine_def)
  have t1: "res_error (render_thumbnail (MuPDF test_engine) (Some test_page) 612 792 True)
              = Success"
    by (simp add: render_thumbnail_def render_page_def test_engine_def test_page_def Let_def
        Result_value_def)
  have t0: "res_error (render_thumbnail (MuPDF test_engine)
                         (Some (test_page\<lparr>Page_handle := 0\<rparr>)) 612 792 True) = RenderError"
    by (simp add: render_thumbnail_def r0 Let_def Result_error_def)
  have u: "[0..page_count doc2 - 1] = [0, 1]"
    by (simp add: doc2_def upto_rec1)
  show ?thesis
    using batch_results_per_item
            [of "MuPDF test_engine" doc2 "[0, 5, 1]" "RenderOptions_default\<lparr>dpi := 72\<rparr>" None
               612 792]
    by (simp add: u processed_def page_slot_def p0 p1 p5 r0 t0 t1 render_test_page_72)
qed

end
